theory Spec2Isabelle
  imports Complex_Main "HOL-Library.Word"
begin

section \<open>Strings and character classes\<close>

text \<open>
  A Go string is a sequence of bytes; it is modelled as \<^typ>\<open>string\<close>, a list of
  8-bit characters. The regular expressions of \<^verbatim>\<open>main.go\<close> use the classes
  \<^verbatim>\<open>\d\<close>, \<^verbatim>\<open>\w\<close> and \<^verbatim>\<open>\s\<close>, which Go's \<^verbatim>\<open>regexp\<close> package
  reads as ASCII classes: \<^verbatim>\<open>[0-9]\<close>, \<^verbatim>\<open>[0-9A-Za-z_]\<close> and
  \<^verbatim>\<open>[\t\n\f\r ]\<close>. A byte above 127 belongs to none of them, so a string that
  matches one of the anchored patterns below is pure ASCII.
\<close>

definition byte :: "char \<Rightarrow> nat" where
  "byte c = of_char c"

definition is_digit :: "char \<Rightarrow> bool" where
  "is_digit c = (48 \<le> byte c \<and> byte c \<le> 57)"

definition is_upper :: "char \<Rightarrow> bool" where
  "is_upper c = (65 \<le> byte c \<and> byte c \<le> 90)"

definition is_lower :: "char \<Rightarrow> bool" where
  "is_lower c = (97 \<le> byte c \<and> byte c \<le> 122)"

definition word_char :: "char \<Rightarrow> bool" where
  \<comment> \<open>\<^verbatim>\<open>\w\<close>\<close>
  "word_char c = (is_digit c \<or> is_upper c \<or> is_lower c \<or> byte c = 95)"

definition space_char :: "char \<Rightarrow> bool" where
  \<comment> \<open>\<^verbatim>\<open>\s\<close>: tab, line feed, form feed, carriage return, space\<close>
  "space_char c = (byte c = 9 \<or> byte c = 10 \<or> byte c = 12 \<or> byte c = 13 \<or> byte c = 32)"

definition digit_val :: "char \<Rightarrow> nat" where
  "digit_val c = byte c - 48"

fun dec_val :: "string \<Rightarrow> nat \<Rightarrow> nat" where
  \<comment> \<open>the number written by a string of decimal digits, most significant first\<close>
  "dec_val [] acc = acc"
| "dec_val (c # cs) acc = dec_val cs (10 * acc + digit_val c)"

definition matchRetailer :: "string \<Rightarrow> bool" where
  \<comment> \<open>\<^verbatim>\<open>^[\w\s\-&]+$\<close>\<close>
  "matchRetailer s =
     (s \<noteq> [] \<and> list_all (\<lambda>c. word_char c \<or> space_char c \<or> byte c = 45 \<or> byte c = 38) s)"

definition shortDescriptionRegExp :: "string \<Rightarrow> bool" where
  \<comment> \<open>\<^verbatim>\<open>^[\w\s\-]+$\<close>\<close>
  "shortDescriptionRegExp s =
     (s \<noteq> [] \<and> list_all (\<lambda>c. word_char c \<or> space_char c \<or> byte c = 45) s)"

definition priceRegExp :: "string \<Rightarrow> bool" where
  \<comment> \<open>\<^verbatim>\<open>^\d+\.\d{2}$\<close>: the dot is no digit, so \<^verbatim>\<open>\d+\<close> is the longest
      prefix of digits\<close>
  "priceRegExp s =
     (takeWhile is_digit s \<noteq> [] \<and>
      (case dropWhile is_digit s of
         [p, a, b] \<Rightarrow> byte p = 46 \<and> is_digit a \<and> is_digit b
       | _ \<Rightarrow> False))"

definition matchId :: "string \<Rightarrow> bool" where
  \<comment> \<open>\<^verbatim>\<open>^\S+$\<close>\<close>
  "matchId s = (s \<noteq> [] \<and> list_all (\<lambda>c. \<not> space_char c) s)"

section \<open>The layouts of \<^verbatim>\<open>time.Parse\<close>\<close>

text \<open>
  \<^verbatim>\<open>time.Parse\<close> belongs to Go's standard library. The two calls of the program
  use the layouts \<^verbatim>\<open>"2006-01-02"\<close> and \<^verbatim>\<open>"15:04"\<close>; the functions below follow
  the library's parser for these layouts element by element: \<^verbatim>\<open>getnum\<close> reads one
  or two digits (exactly two when \<^verbatim>\<open>fixed\<close>), the year is exactly four digits, a
  literal of the layout must be matched by the same byte, nothing may follow the last
  element, and the day is checked against the month's length at the end.
\<close>

fun getnum :: "string \<Rightarrow> bool \<Rightarrow> (nat \<times> string) option" where
  "getnum [] fixed = None"
| "getnum [c] fixed =
     (if \<not> is_digit c then None
      else if fixed then None
      else Some (digit_val c, []))"
| "getnum (c # d # r) fixed =
     (if \<not> is_digit c then None
      else if \<not> is_digit d then (if fixed then None else Some (digit_val c, d # r))
      else Some (digit_val c * 10 + digit_val d, r))"

fun skip :: "string \<Rightarrow> char \<Rightarrow> string option" where
  \<comment> \<open>a one-byte literal of the layout (neither layout has a space)\<close>
  "skip [] p = None"
| "skip (c # r) p = (if c = p then Some r else None)"

definition longYear :: "string \<Rightarrow> (nat \<times> string) option" where
  \<comment> \<open>\<^verbatim>\<open>stdLongYear\<close>: the first four bytes, which \<^verbatim>\<open>atoi\<close> accepts only when all
      four are digits (a sign is possible only in front, where a digit is required)\<close>
  "longYear s =
     (if length s < 4 \<or> \<not> is_digit (hd s) then None
      else if list_all is_digit (take 4 s) then Some (dec_val (take 4 s) 0, drop 4 s)
      else None)"

definition isLeap :: "nat \<Rightarrow> bool" where
  "isLeap year = (year mod 4 = 0 \<and> (year mod 100 \<noteq> 0 \<or> year mod 400 = 0))"

definition daysIn :: "nat \<Rightarrow> nat \<Rightarrow> nat" where
  "daysIn m year =
     (if m = 2 \<and> isLeap year then 29
      else if m = 2 then 28
      else if m = 4 \<or> m = 6 \<or> m = 9 \<or> m = 11 then 30
      else 31)"

definition parseDate :: "string \<Rightarrow> (nat \<times> nat \<times> nat) option" where
  \<comment> \<open>\<^verbatim>\<open>time.Parse("2006-01-02", s)\<close>: year, month and day of the result, or the error\<close>
  "parseDate s =
     (case longYear s of None \<Rightarrow> None | Some (year, s1) \<Rightarrow>
     (case skip s1 (CHR ''-'') of None \<Rightarrow> None | Some s2 \<Rightarrow>
     (case getnum s2 True of None \<Rightarrow> None | Some (month, s3) \<Rightarrow>
       if month = 0 \<or> 12 < month then None
       else
     (case skip s3 (CHR ''-'') of None \<Rightarrow> None | Some s4 \<Rightarrow>
     (case getnum s4 True of None \<Rightarrow> None | Some (day, s5) \<Rightarrow>
       if s5 \<noteq> [] then None
       else if day < 1 \<or> daysIn month year < day then None
       else Some (year, month, day))))))"

definition parseTime :: "string \<Rightarrow> (nat \<times> nat) option" where
  \<comment> \<open>\<^verbatim>\<open>time.Parse("15:04", s)\<close>: hour and minute of the result, or the error. The
      element \<^verbatim>\<open>15\<close> reads one or two digits, the element \<^verbatim>\<open>04\<close> exactly two.\<close>
  "parseTime s =
     (case getnum s False of None \<Rightarrow> None | Some (hour, s1) \<Rightarrow>
       if 24 \<le> hour then None
       else
     (case skip s1 (CHR '':'') of None \<Rightarrow> None | Some s2 \<Rightarrow>
     (case getnum s2 True of None \<Rightarrow> None | Some (minute, s3) \<Rightarrow>
       if 60 \<le> minute then None
       else if s3 \<noteq> [] then None
       else Some (hour, minute))))"

section \<open>Receipts, the store and the submit handler\<close>

text \<open>
  The fields of the two structs are pointers, \<^verbatim>\<open>nil\<close> when the JSON document has
  no such key: they are options here. The JSON decoder is outside the model; the
  handler receives what \<^verbatim>\<open>decoder.Decode\<close> produced, a struct or an error.
\<close>

record ItemStruct =
  ShortDescription :: "string option"
  Price :: "string option"

record ReceiptStruct =
  Retailer :: "string option"
  PurchaseDate :: "string option"
  PurchaseTime :: "string option"
  Items :: "ItemStruct list option"
  Total :: "string option"

datatype body = DecodeError | Decoded ReceiptStruct

datatype http_method = GET | POST | OtherMethod

text \<open>The lines the handlers print on the server's console, one constructor each.\<close>

datatype diag =
    MissingFields
  | InvalidRetailer
  | InvalidPurchaseDate
  | InvalidPurchaseTime
  | NoItems
  | ItemMissingFields
  | InvalidShortDescription
  | InvalidPrice
  | InvalidReceiptId
  | NoSuchReceipt

text \<open>
  The answers sent to the client. Every validation failure sends the same answer
  (status 400, one fixed message), and both failures of the points handler send the
  same answer (status 404, one fixed message).
\<close>

datatype response =
    ReceiptIDResponse string
  | PointsResponse "64 word"
  | BadRequest
  | NotFound
  | MethodNotAllowed

fun checkItems :: "ItemStruct list \<Rightarrow> diag option" where
  \<comment> \<open>the loop over the items: the first failing check of the first failing item\<close>
  "checkItems [] = None"
| "checkItems (item # rest) =
     (case (ShortDescription item, Price item) of
        (Some d, Some p) \<Rightarrow>
          if \<not> shortDescriptionRegExp d then Some InvalidShortDescription
          else if \<not> priceRegExp p then Some InvalidPrice
          else checkItems rest
      | _ \<Rightarrow> Some ItemMissingFields)"

definition item_ok :: "ItemStruct \<Rightarrow> bool" where
  \<comment> \<open>an item that passes the three checks of the loop\<close>
  "item_ok item =
     (case (ShortDescription item, Price item) of
        (Some d, Some p) \<Rightarrow> shortDescriptionRegExp d \<and> priceRegExp p
      | _ \<Rightarrow> False)"

definition validate :: "body \<Rightarrow> diag option" where
  \<comment> \<open>the checks of \<^verbatim>\<open>processReceipt\<close>, in the order of the source; \<open>None\<close> when
      all of them pass\<close>
  "validate b =
     (case b of
        DecodeError \<Rightarrow> Some MissingFields
      | Decoded rs \<Rightarrow>
          (case (Retailer rs, PurchaseDate rs, PurchaseTime rs, Items rs, Total rs) of
             (Some rt, Some dt, Some tm, Some its, Some tot) \<Rightarrow>
               if \<not> matchRetailer rt then Some InvalidRetailer
               else if parseDate dt = None then Some InvalidPurchaseDate
               else if parseTime tm = None then Some InvalidPurchaseTime
               else if length its < 1 then Some NoItems
               else checkItems its
           | _ \<Rightarrow> Some MissingFields))"

text \<open>
  The store is the global map \<^verbatim>\<open>receipts\<close>. The identifiers come from
  \<^verbatim>\<open>uuid.New()\<close>, a random source outside the program: it is a parameter
  \<open>rnd\<close>, the sequence of the identifiers it will produce, and the state counts
  how many have been drawn.
\<close>

record state =
  receipts :: "string \<rightharpoonup> ReceiptStruct"
  draws :: nat

definition wasReceiptProcessed :: "(string \<rightharpoonup> ReceiptStruct) \<Rightarrow> string \<Rightarrow> bool" where
  "wasReceiptProcessed m key = (m key \<noteq> None)"

text \<open>
  The loop that draws identifiers until one is new has no bound in the source: the
  model is a partial function, \<open>None\<close> when the loop never ends.
\<close>

partial_function (option) newId ::
  "(nat \<Rightarrow> string) \<Rightarrow> (string \<rightharpoonup> ReceiptStruct) \<Rightarrow> nat \<Rightarrow> (string \<times> nat) option" where
  "newId rnd m i =
     (if wasReceiptProcessed m (rnd i) then newId rnd m (Suc i) else Some (rnd i, Suc i))"

definition processReceipt ::
  "(nat \<Rightarrow> string) \<Rightarrow> http_method \<Rightarrow> body \<Rightarrow> state \<Rightarrow> (response \<times> diag option \<times> state) option" where
  "processReceipt rnd method b s =
     (if method \<noteq> POST then Some (MethodNotAllowed, None, s)
      else case validate b of
        Some d \<Rightarrow> Some (BadRequest, Some d, s)
      | None \<Rightarrow>
          (case b of
             DecodeError \<Rightarrow> Some (BadRequest, Some MissingFields, s)
           | Decoded rs \<Rightarrow>
               (case newId rnd (receipts s) (draws s) of
                  None \<Rightarrow> None
                | Some (key, n) \<Rightarrow>
                    Some (ReceiptIDResponse key, None,
                          s\<lparr>receipts := (receipts s)(key \<mapsto> rs), draws := n\<rparr>))))"

section \<open>Binary floating point\<close>

text \<open>
  The points handler computes with \<^verbatim>\<open>float64\<close>. A finite double is a dyadic
  rational: \<open>Finite n k\<close> stands for \<open>n / 2 ^ k\<close>. The two zeros are one value
  here; the program cannot tell them apart (it never divides, and \<^verbatim>\<open>-0 == 0\<close>).
  Rounding to the nearest double, ties to even, is computed on fractions of natural
  numbers and is exact: no real or floating-point arithmetic of the prover is involved.
\<close>

datatype float64 = Finite int nat | PosInf | NegInf | NaN

fun bitlen :: "nat \<Rightarrow> nat" where
  \<comment> \<open>the number of binary digits\<close>
  "bitlen n = (if n = 0 then 0 else Suc (bitlen (n div 2)))"

declare bitlen.simps [simp del]

definition pow2_le :: "int \<Rightarrow> nat \<Rightarrow> nat \<Rightarrow> bool" where
  \<comment> \<open>\<open>2 ^ e \<le> a / b\<close>, for an exponent of either sign\<close>
  "pow2_le e a b = (if 0 \<le> e then 2 ^ nat e * b \<le> a else b \<le> a * 2 ^ nat (- e))"

definition binade :: "nat \<Rightarrow> nat \<Rightarrow> int" where
  \<comment> \<open>the exponent \<open>e\<close> with \<open>2 ^ e \<le> a / b < 2 ^ (e + 1)\<close>, for \<open>a, b > 0\<close>\<close>
  "binade a b =
     (let e = int (bitlen a) - int (bitlen b) in if pow2_le e a b then e else e - 1)"

definition rne_div :: "nat \<Rightarrow> nat \<Rightarrow> nat" where
  \<comment> \<open>\<open>a / b\<close> rounded to the nearest integer, a tie to the even one\<close>
  "rne_div a b =
     (let q = a div b; r = a mod b
      in if 2 * r < b then q
         else if b < 2 * r then q + 1
         else if even q then q else q + 1)"

definition round_nearest :: "nat \<Rightarrow> nat \<Rightarrow> float64" where
  \<comment> \<open>the double nearest to \<open>a / b\<close> (\<open>b > 0\<close>): 53 significant bits, the exponent
      of the last bit not below \<open>-1074\<close>, infinity from \<open>2 ^ 1024\<close> on\<close>
  "round_nearest a b =
     (if a = 0 then Finite 0 0
      else
        let u = max (binade a b) (- 1022) - 52
        in if 0 \<le> u
           then (let m = rne_div a (b * 2 ^ nat u)
                 in if 2 ^ 1024 \<le> m * 2 ^ nat u then PosInf
                    else Finite (int (m * 2 ^ nat u)) 0)
           else Finite (int (rne_div (a * 2 ^ nat (- u)) b)) (nat (- u)))"

definition fneg :: "float64 \<Rightarrow> float64" where
  "fneg x = (case x of Finite n k \<Rightarrow> Finite (- n) k | PosInf \<Rightarrow> NegInf
                     | NegInf \<Rightarrow> PosInf | NaN \<Rightarrow> NaN)"

definition fsgn :: "float64 \<Rightarrow> int" where
  "fsgn x = (case x of Finite n k \<Rightarrow> sgn n | PosInf \<Rightarrow> 1 | NegInf \<Rightarrow> - 1 | NaN \<Rightarrow> 0)"

definition fmul :: "float64 \<Rightarrow> float64 \<Rightarrow> float64" where
  \<comment> \<open>the product of two doubles, rounded once\<close>
  "fmul x y =
     (case (x, y) of
        (NaN, _) \<Rightarrow> NaN
      | (_, NaN) \<Rightarrow> NaN
      | (Finite n1 k1, Finite n2 k2) \<Rightarrow>
          (if 0 \<le> n1 * n2 then round_nearest (nat (n1 * n2)) (2 ^ (k1 + k2))
           else fneg (round_nearest (nat (- (n1 * n2))) (2 ^ (k1 + k2))))
      | _ \<Rightarrow>
          (if fsgn x * fsgn y = 0 then NaN
           else if 0 < fsgn x * fsgn y then PosInf else NegInf))"

definition feq :: "float64 \<Rightarrow> float64 \<Rightarrow> bool" where
  \<comment> \<open>Go's \<^verbatim>\<open>==\<close> on \<^verbatim>\<open>float64\<close>\<close>
  "feq x y =
     (case (x, y) of
        (Finite n1 k1, Finite n2 k2) \<Rightarrow> n1 * 2 ^ k2 = n2 * 2 ^ k1
      | (PosInf, PosInf) \<Rightarrow> True
      | (NegInf, NegInf) \<Rightarrow> True
      | _ \<Rightarrow> False)"

definition Mod :: "float64 \<Rightarrow> float64 \<Rightarrow> float64" where
  \<comment> \<open>\<^verbatim>\<open>math.Mod\<close>: the remainder of the truncated division, with the sign of
      \<open>x\<close>; it is a double itself, so nothing is rounded\<close>
  "Mod x y =
     (case (x, y) of
        (Finite n1 k1, Finite n2 k2) \<Rightarrow>
          (if n2 = 0 then NaN
           else Finite (sgn n1 * ((\<bar>n1\<bar> * 2 ^ k2) mod (\<bar>n2\<bar> * 2 ^ k1))) (k1 + k2))
      | (Finite n1 k1, PosInf) \<Rightarrow> x
      | (Finite n1 k1, NegInf) \<Rightarrow> x
      | _ \<Rightarrow> NaN)"

definition Ceil :: "float64 \<Rightarrow> float64" where
  \<comment> \<open>\<^verbatim>\<open>math.Ceil\<close>\<close>
  "Ceil x = (case x of Finite n k \<Rightarrow> Finite (- ((- n) div 2 ^ k)) 0 | _ \<Rightarrow> x)"

text \<open>
  Two things are left open by the program's text and are parameters of the model, so
  that every statement below holds whatever they are:
  \<^item> \<^verbatim>\<open>strconv.ParseFloat\<close> on the strings outside the part of its grammar
    that is modelled here;
  \<^item> the conversion to \<^verbatim>\<open>int64\<close> of a \<^verbatim>\<open>float64\<close> that does not fit, which
    the language leaves to the implementation.
\<close>

record platform =
  parseFloatOther :: "string \<Rightarrow> float64"
  int64Other :: "float64 \<Rightarrow> 64 word"

definition int64_of :: "platform \<Rightarrow> float64 \<Rightarrow> 64 word" where
  \<comment> \<open>the conversion \<^verbatim>\<open>int64(f)\<close>: the fraction is dropped, towards zero\<close>
  "int64_of pl x =
     (case x of
        Finite n k \<Rightarrow>
          (let t = sgn n * (\<bar>n\<bar> div 2 ^ k)
           in if - (2 ^ 63) \<le> t \<and> t < 2 ^ 63 then word_of_int t
              else int64Other pl x)
      | _ \<Rightarrow> int64Other pl x)"

definition plain_decimal :: "string \<Rightarrow> bool" where
  \<comment> \<open>digits, a dot, digits\<close>
  "plain_decimal s =
     (takeWhile is_digit s \<noteq> [] \<and>
      (case dropWhile is_digit s of
         [] \<Rightarrow> False
       | p # fp \<Rightarrow> byte p = 46 \<and> fp \<noteq> [] \<and> list_all is_digit fp))"

definition literal_start :: "char \<Rightarrow> bool" where
  \<comment> \<open>the bytes a floating-point literal can begin with: a digit, a sign, the dot,
      and the first letter of \<^verbatim>\<open>inf\<close> or \<^verbatim>\<open>nan\<close> in either case\<close>
  "literal_start c =
     (is_digit c \<or> byte c = 43 \<or> byte c = 45 \<or> byte c = 46 \<or>
      byte c = 73 \<or> byte c = 105 \<or> byte c = 78 \<or> byte c = 110)"

definition ParseFloat :: "platform \<Rightarrow> string \<Rightarrow> float64" where
  \<comment> \<open>\<^verbatim>\<open>strconv.ParseFloat(s, 64)\<close> with its error dropped, as both calls do. The
      library returns the nearest double of a well-formed literal (infinity when it
      is too large) and 0 on a syntax error. Modelled: the literals
      \<^verbatim>\<open>digits.digits\<close>, and the strings that are no literal because they are
      empty or begin with a byte no literal begins with. The rest (signs, exponents,
      hexadecimal literals, underscores, \<^verbatim>\<open>inf\<close>, \<^verbatim>\<open>nan\<close>) is the parameter.\<close>
  "ParseFloat pl s =
     (if plain_decimal s
      then round_nearest
             (dec_val (takeWhile is_digit s @ tl (dropWhile is_digit s)) 0)
             (10 ^ length (tl (dropWhile is_digit s)))
      else if s = [] \<or> \<not> literal_start (hd s) then Finite 0 0
      else parseFloatOther pl s)"

section \<open>The points handler\<close>

text \<open>
  What stops the points handler, and where the model stops: a \<^verbatim>\<open>nil\<close> pointer
  is dereferenced (a panic), or a string has a byte above 127, where the loop over
  the retailer's characters and \<^verbatim>\<open>strings.TrimSpace\<close> work on decoded runes,
  which are not modelled. No receipt that passed the checks of the submit handler
  has either.
\<close>

datatype fault = NilDereference | NonASCII

definition andThen :: "fault + 'a \<Rightarrow> ('a \<Rightarrow> fault + 'b) \<Rightarrow> fault + 'b" where
  "andThen r f = (case r of Inl e \<Rightarrow> Inl e | Inr v \<Rightarrow> f v)"

definition deref :: "'a option \<Rightarrow> fault + 'a" where
  "deref p = (case p of None \<Rightarrow> Inl NilDereference | Some v \<Rightarrow> Inr v)"

definition ascii :: "string \<Rightarrow> bool" where
  "ascii s = list_all (\<lambda>c. byte c < 128) s"

definition trim_char :: "char \<Rightarrow> bool" where
  \<comment> \<open>the ASCII part of \<^verbatim>\<open>unicode.IsSpace\<close>: \<^verbatim>\<open>\t \n \v \f \r\<close> and space\<close>
  "trim_char c = ((9 \<le> byte c \<and> byte c \<le> 13) \<or> byte c = 32)"

definition TrimSpace :: "string \<Rightarrow> string" where
  \<comment> \<open>\<^verbatim>\<open>strings.TrimSpace\<close> on an ASCII string\<close>
  "TrimSpace s = rev (dropWhile trim_char (rev (dropWhile trim_char s)))"

fun retailerPoints :: "string \<Rightarrow> 64 word \<Rightarrow> 64 word" where
  \<comment> \<open>the loop over the characters of an ASCII retailer name, where
      \<^verbatim>\<open>unicode.IsLetter\<close> is \<^verbatim>\<open>[A-Za-z]\<close> and \<^verbatim>\<open>unicode.IsDigit\<close> is
      \<^verbatim>\<open>[0-9]\<close>\<close>
  "retailerPoints [] points = points"
| "retailerPoints (c # cs) points =
     retailerPoints cs
       (if (is_upper c \<or> is_lower c) \<or> is_digit c then points + 1 else points)"

definition totalPoints :: "float64 \<Rightarrow> 64 word \<Rightarrow> 64 word" where
  \<comment> \<open>the two tests on the total, in the order of the source\<close>
  "totalPoints totalv points =
     (let p50 = (if feq (Mod totalv (Finite 1 0)) (Finite 0 0) then points + 50 else points)
      in if feq (Mod totalv (Finite 1 2)) (Finite 0 0) then p50 + 25 else p50)"

definition itemStep :: "platform \<Rightarrow> ItemStruct \<Rightarrow> 64 word \<Rightarrow> fault + 64 word" where
  \<comment> \<open>one turn of the loop over the items; \<^verbatim>\<open>0.2\<close> is the double nearest to 1/5\<close>
  "itemStep pl item points =
     andThen (deref (ShortDescription item)) (\<lambda>d.
       if \<not> ascii d then Inl NonASCII
       else if length (TrimSpace d) mod 3 = 0
       then andThen (deref (Price item)) (\<lambda>ps.
              Inr (points +
                   int64_of pl (Ceil (fmul (ParseFloat pl ps) (round_nearest 1 5)))))
       else Inr points)"

fun itemsLoop :: "platform \<Rightarrow> ItemStruct list \<Rightarrow> 64 word \<Rightarrow> fault + 64 word" where
  "itemsLoop pl [] points = Inr points"
| "itemsLoop pl (item # rest) points =
     andThen (itemStep pl item points) (itemsLoop pl rest)"

definition dayOf :: "string \<Rightarrow> nat" where
  \<comment> \<open>\<^verbatim>\<open>parsedDate.Day()\<close>; on an error the zero \<^verbatim>\<open>Time\<close>, January 1 of year 1\<close>
  "dayOf s = (case parseDate s of None \<Rightarrow> 1 | Some (y, m, d) \<Rightarrow> d)"

definition hourOf :: "string \<Rightarrow> nat" where
  \<comment> \<open>\<^verbatim>\<open>parsedTime.Hour()\<close>; on an error the zero \<^verbatim>\<open>Time\<close>, midnight\<close>
  "hourOf s = (case parseTime s of None \<Rightarrow> 0 | Some (h, m) \<Rightarrow> h)"

definition datePoints :: "string \<Rightarrow> 64 word \<Rightarrow> 64 word" where
  "datePoints dt points = (if dayOf dt mod 2 \<noteq> 0 then points + 6 else points)"

definition timePoints :: "string \<Rightarrow> 64 word \<Rightarrow> 64 word" where
  "timePoints tm points = (if 14 \<le> hourOf tm \<and> hourOf tm < 16 then points + 10 else points)"

definition score :: "platform \<Rightarrow> ReceiptStruct \<Rightarrow> fault + 64 word" where
  \<comment> \<open>lines 170 to 208 of \<^verbatim>\<open>getReceiptPoints\<close>\<close>
  "score pl receipt =
     andThen (deref (Retailer receipt)) (\<lambda>rt.
     if \<not> ascii rt then Inl NonASCII
     else
     andThen (deref (Total receipt)) (\<lambda>tot.
     andThen (deref (Items receipt)) (\<lambda>its.
     andThen (itemsLoop pl its
                (totalPoints (ParseFloat pl tot) (retailerPoints rt 0)
                   + of_nat ((length its div 2) * 5))) (\<lambda>p5.
     andThen (deref (PurchaseDate receipt)) (\<lambda>dt.
     andThen (deref (PurchaseTime receipt)) (\<lambda>tm.
     Inr (timePoints tm (datePoints dt p5))))))))"

definition getReceiptPoints ::
  "platform \<Rightarrow> http_method \<Rightarrow> string \<Rightarrow> state
     \<Rightarrow> fault + (response \<times> diag option \<times> state)" where
  "getReceiptPoints pl method ident s =
     (if method \<noteq> GET then Inr (MethodNotAllowed, None, s)
      else if \<not> matchId ident then Inr (NotFound, Some InvalidReceiptId, s)
      else if \<not> wasReceiptProcessed (receipts s) ident
      then Inr (NotFound, Some NoSuchReceipt, s)
      else andThen (deref (receipts s ident)) (\<lambda>receipt.
           andThen (score pl receipt) (\<lambda>points.
           Inr (PointsResponse points, None, s))))"

section \<open>Notions of the specification\<close>

text \<open>
  The definitions of this section are not taken from the program. They say, in the
  words of the specification, what the theorems compare the program with.
\<close>

definition cents :: "string \<Rightarrow> nat" where
  \<comment> \<open>the whole cents of a decimal string with two fractional digits: its digits
      read as one number\<close>
  "cents s = dec_val (takeWhile is_digit s @ tl (dropWhile is_digit s)) 0"

definition days_in_month :: "nat \<Rightarrow> nat \<Rightarrow> nat" where
  \<comment> \<open>the Gregorian calendar\<close>
  "days_in_month y m =
     (if m = 1 \<or> m = 3 \<or> m = 5 \<or> m = 7 \<or> m = 8 \<or> m = 10 \<or> m = 12 then 31
      else if m = 4 \<or> m = 6 \<or> m = 9 \<or> m = 11 then 30
      else if (4 dvd y \<and> \<not> 100 dvd y) \<or> 400 dvd y then 29
      else 28)"

definition calendar_date :: "string \<Rightarrow> bool" where
  \<comment> \<open>a real calendar date in the exact shape \<^verbatim>\<open>YYYY-MM-DD\<close>\<close>
  "calendar_date s =
     (case s of
        [y1, y2, y3, y4, h1, m1, m2, h2, d1, d2] \<Rightarrow>
          list_all is_digit [y1, y2, y3, y4, m1, m2, d1, d2] \<and>
          h1 = CHR ''-'' \<and> h2 = CHR ''-'' \<and>
          (let y = 1000 * digit_val y1 + 100 * digit_val y2 + 10 * digit_val y3 + digit_val y4;
               m = 10 * digit_val m1 + digit_val m2;
               d = 10 * digit_val d1 + digit_val d2
           in 1 \<le> m \<and> m \<le> 12 \<and> 1 \<le> d \<and> d \<le> days_in_month y m)
      | _ \<Rightarrow> False)"

fun first_failing :: "(diag \<times> ('a \<Rightarrow> bool)) list \<Rightarrow> 'a \<Rightarrow> diag option" where
  \<comment> \<open>checks made one after the other, each with the failure it reports: the failure
      of the first check that does not pass, and nothing of the later ones\<close>
  "first_failing [] x = None"
| "first_failing ((d, passes) # cs) x = (if passes x then first_failing cs x else Some d)"

definition present_and :: "('a \<Rightarrow> bool) \<Rightarrow> 'a option \<Rightarrow> bool" where
  \<comment> \<open>a check of a field's value says nothing of a field that is missing\<close>
  "present_and P v = (case v of None \<Rightarrow> True | Some x \<Rightarrow> P x)"

definition receipt_checks :: "(diag \<times> (ReceiptStruct \<Rightarrow> bool)) list" where
  \<comment> \<open>the checks of the receipt as a whole, in the order of the amended claim C4\<close>
  "receipt_checks =
     [(MissingFields, \<lambda>rs. Retailer rs \<noteq> None \<and> PurchaseDate rs \<noteq> None \<and>
                           PurchaseTime rs \<noteq> None \<and> Items rs \<noteq> None \<and> Total rs \<noteq> None),
      (InvalidRetailer, \<lambda>rs. present_and matchRetailer (Retailer rs)),
      (InvalidPurchaseDate, \<lambda>rs. present_and (\<lambda>dt. parseDate dt \<noteq> None) (PurchaseDate rs)),
      (InvalidPurchaseTime, \<lambda>rs. present_and (\<lambda>tm. parseTime tm \<noteq> None) (PurchaseTime rs)),
      (NoItems, \<lambda>rs. present_and (\<lambda>its. its \<noteq> []) (Items rs))]"

definition item_checks :: "(diag \<times> (ItemStruct \<Rightarrow> bool)) list" where
  \<comment> \<open>the checks of one item, in order\<close>
  "item_checks =
     [(ItemMissingFields, \<lambda>it. ShortDescription it \<noteq> None \<and> Price it \<noteq> None),
      (InvalidShortDescription, \<lambda>it. present_and shortDescriptionRegExp (ShortDescription it)),
      (InvalidPrice, \<lambda>it. present_and priceRegExp (Price it))]"

fun first_item_failing :: "ItemStruct list \<Rightarrow> diag option" where
  \<comment> \<open>the items one after the other\<close>
  "first_item_failing [] = None"
| "first_item_failing (it # its) =
     (case first_failing item_checks it of
        Some d \<Rightarrow> Some d
      | None \<Rightarrow> first_item_failing its)"

definition first_failure :: "body \<Rightarrow> diag option" where
  \<comment> \<open>the failure the amended claim C4 has the validator report: that of the first
      failing check, the receipt's checks before the items'; a body that did not
      decode is reported as missing fields\<close>
  "first_failure b =
     (case b of
        DecodeError \<Rightarrow> Some MissingFields
      | Decoded rs \<Rightarrow>
          (case first_failing receipt_checks rs of
             Some d \<Rightarrow> Some d
           | None \<Rightarrow> (case Items rs of None \<Rightarrow> None | Some its \<Rightarrow> first_item_failing its)))"

definition validated :: "state \<Rightarrow> bool" where
  \<comment> \<open>every receipt of the store passed the checks of the submit handler\<close>
  "validated s = (\<forall>k r. receipts s k = Some r \<longrightarrow> validate (Decoded r) = None)"

section \<open>Concrete receipts\<close>

definition item :: "string \<Rightarrow> string \<Rightarrow> ItemStruct" where
  "item d p = \<lparr>ShortDescription = Some d, Price = Some p\<rparr>"

definition receipt ::
  "string \<Rightarrow> string \<Rightarrow> string \<Rightarrow> ItemStruct list \<Rightarrow> string \<Rightarrow> ReceiptStruct" where
  "receipt rt dt tm its tot =
     \<lparr>Retailer = Some rt, PurchaseDate = Some dt, PurchaseTime = Some tm,
      Items = Some its, Total = Some tot\<rparr>"

definition scenarioA :: ReceiptStruct where
  "scenarioA =
     receipt ''Target'' ''2022-01-01'' ''13:01''
       [item ''Mountain Dew 12PK'' ''6.49'',
        item ''Emils Cheese Pizza'' ''12.25'',
        item ''Knorr Creamy Chicken'' ''1.26'',
        item ''Doritos Nacho Cheese'' ''3.35'',
        item ''   Klarbrunn 12-PK 12 FL OZ  '' ''12.00'']
       ''35.35''"

definition scenarioB :: ReceiptStruct where
  "scenarioB =
     receipt ''M&M Corner Market'' ''2022-03-20'' ''14:33''
       [item ''Gatorade'' ''2.25'', item ''Gatorade'' ''2.25'',
        item ''Gatorade'' ''2.25'', item ''Gatorade'' ''2.25'']
       ''9.00''"

definition overflowing :: ReceiptStruct where
  "overflowing =
     receipt ''Target'' ''2022-01-02'' ''13:01''
       [item ''abc'' ''23058430092136939520.00'', item ''abc'' ''23058430092136939520.00'']
       ''1.01''"

definition somePlatform :: platform where
  \<comment> \<open>a platform for the concrete evaluations, none of which reaches its fields\<close>
  "somePlatform = \<lparr>parseFloatOther = (\<lambda>s. NaN), int64Other = (\<lambda>x. 0)\<rparr>"

definition someIds :: "nat \<Rightarrow> string" where
  \<comment> \<open>a source of identifiers for the concrete evaluations\<close>
  "someIds n = (if n = 0 then ''7fb1377b-b223-49d9-a31a-5a02701dd310''
                else replicate n (CHR ''a''))"

definition emptyState :: state where
  "emptyState = \<lparr>receipts = Map.empty, draws = 0\<rparr>"

section \<open>Evaluation on concrete inputs\<close>

text \<open>
  Equations that let the simplifier compute the functions above on numerals and on
  the constructors of \<^typ>\<open>float64\<close>.
\<close>

lemma bitlen_0 [simp]: "bitlen 0 = 0" by (simp add: bitlen.simps)
lemma bitlen_1 [simp]: "bitlen (Suc 0) = Suc 0" by (simp add: bitlen.simps)
lemma bitlen_numeral [simp]: "bitlen (numeral n) = Suc (bitlen (numeral n div 2))"
  by (subst bitlen.simps) simp
lemma fmul_Finite: "fmul (Finite n1 k1) (Finite n2 k2) =
   (if 0 \<le> n1 * n2 then round_nearest (nat (n1 * n2)) (2 ^ (k1 + k2))
    else fneg (round_nearest (nat (- (n1 * n2))) (2 ^ (k1 + k2))))"
  by (simp add: fmul_def)
lemma feq_Finite: "feq (Finite n1 k1) (Finite n2 k2) = (n1 * 2 ^ k2 = n2 * 2 ^ k1)"
  by (simp add: feq_def)
lemma Mod_Finite: "Mod (Finite n1 k1) (Finite n2 k2) =
   (if n2 = 0 then NaN else Finite (sgn n1 * ((\<bar>n1\<bar> * 2 ^ k2) mod (\<bar>n2\<bar> * 2 ^ k1))) (k1 + k2))"
  by (simp add: Mod_def)
lemma feq_NaN: "feq NaN y = False" by (simp add: feq_def)
lemma Ceil_Finite: "Ceil (Finite n k) = Finite (- ((- n) div 2 ^ k)) 0"
  by (simp add: Ceil_def)
lemma int64_of_Finite: "int64_of pl (Finite n k) =
   (if - (2 ^ 63) \<le> sgn n * (\<bar>n\<bar> div 2 ^ k) \<and> sgn n * (\<bar>n\<bar> div 2 ^ k) < 2 ^ 63
    then word_of_int (sgn n * (\<bar>n\<bar> div 2 ^ k)) else int64Other pl (Finite n k))"
  by (simp add: int64_of_def Let_def)

lemmas chars = byte_def is_digit_def is_upper_def is_lower_def word_char_def space_char_def
  digit_val_def trim_char_def ascii_def literal_start_def
lemmas floats = round_nearest_def binade_def pow2_le_def rne_div_def Let_def fmul_Finite
  feq_Finite Mod_Finite Ceil_Finite int64_of_Finite plain_decimal_def ParseFloat_def
lemmas scoring = andThen_def deref_def TrimSpace_def totalPoints_def itemStep_def dayOf_def
  hourOf_def datePoints_def timePoints_def score_def item_def receipt_def
  parseDate_def parseTime_def longYear_def daysIn_def isLeap_def
lemmas checks = validate_def matchRetailer_def shortDescriptionRegExp_def priceRegExp_def
  parseDate_def parseTime_def longYear_def daysIn_def isLeap_def item_def receipt_def

lemmas handlers = processReceipt_def newId.simps wasReceiptProcessed_def emptyState_def
  someIds_def getReceiptPoints_def matchId_def

section \<open>The validator\<close>

lemma checkItems_None_iff: "checkItems its = None \<longleftrightarrow> list_all item_ok its"
  by (induction its) (auto simp: item_ok_def split: option.splits)

lemma validate_NoneD:
  assumes "validate (Decoded rs) = None"
  obtains rt dt tm its tot where
    "Retailer rs = Some rt" "PurchaseDate rs = Some dt" "PurchaseTime rs = Some tm"
    "Items rs = Some its" "Total rs = Some tot"
    "matchRetailer rt" "parseDate dt \<noteq> None" "parseTime tm \<noteq> None"
    "its \<noteq> []" "list_all item_ok its"
  using assms
  by (auto simp: validate_def checkItems_None_iff split: option.splits if_splits)

lemma first_item_failing_eq: "first_item_failing its = checkItems its"
  by (induction its)
     (auto simp: item_checks_def present_and_def split: option.splits)

lemma byte_lt_256: "byte c < 256"
  unfolding byte_def by (cases c) simp

lemma matchRetailer_ascii: "matchRetailer s \<Longrightarrow> ascii s"
  by (auto simp: matchRetailer_def ascii_def list_all_iff word_char_def space_char_def
      is_digit_def is_upper_def is_lower_def)

lemma shortDescription_ascii: "shortDescriptionRegExp s \<Longrightarrow> ascii s"
  by (auto simp: shortDescriptionRegExp_def ascii_def list_all_iff word_char_def
      space_char_def is_digit_def is_upper_def is_lower_def)

lemma itemStep_ok: "item_ok it \<Longrightarrow> \<exists>q. itemStep pl it p = Inr q"
  by (auto simp: item_ok_def itemStep_def andThen_def deref_def shortDescription_ascii
      split: option.splits)

lemma itemsLoop_ok: "list_all item_ok its \<Longrightarrow> \<exists>q. itemsLoop pl its p = Inr q"
proof (induction its arbitrary: p)
  case Nil
  then show ?case by simp
next
  case (Cons it its)
  then obtain q where "itemStep pl it p = Inr q"
    using itemStep_ok [of it pl p] by auto
  with Cons show ?case by (simp add: andThen_def)
qed

lemma score_ok:
  assumes "validate (Decoded rs) = None"
  shows "\<exists>p. score pl rs = Inr p"
proof -
  from assms obtain rt dt tm its tot where f:
    "Retailer rs = Some rt" "PurchaseDate rs = Some dt" "PurchaseTime rs = Some tm"
    "Items rs = Some its" "Total rs = Some tot" "matchRetailer rt" "list_all item_ok its"
    by (rule validate_NoneD)
  obtain q where "itemsLoop pl its
      (totalPoints (ParseFloat pl tot) (retailerPoints rt 0) + of_nat ((length its div 2) * 5))
      = Inr q"
    using itemsLoop_ok [OF f(7)] by blast
  with f show ?thesis
    by (simp add: score_def andThen_def deref_def matchRetailer_ascii)
qed

lemma processReceipt_validated:
  assumes "validated s" and "processReceipt rnd m b s = Some (resp, d, s')"
  shows "validated s'"
proof (cases "m = POST \<and> validate b = None")
  case False
  with assms show ?thesis
    by (auto simp: processReceipt_def split: if_splits option.splits)
next
  case True
  then obtain rs where b: "b = Decoded rs"
    by (cases b) (auto simp: validate_def)
  from True b assms(2) obtain k n where
    s': "s' = s\<lparr>receipts := (receipts s)(k \<mapsto> rs), draws := n\<rparr>"
    by (auto simp: processReceipt_def split: option.splits)
  show ?thesis
    unfolding validated_def
  proof (intro allI impI)
    fix k' r assume "receipts s' k' = Some r"
    then have "r = rs \<or> receipts s k' = Some r"
      by (auto simp: s' split: if_splits)
    then show "validate (Decoded r) = None"
      using True b assms(1) by (auto simp: validated_def)
  qed
qed

section \<open>The date layout\<close>

lemma longYear_Some_iff:
  "longYear s = Some (y, r) \<longleftrightarrow>
     (\<exists>y1 y2 y3 y4. s = y1 # y2 # y3 # y4 # r \<and> list_all is_digit [y1, y2, y3, y4] \<and>
        y = 1000 * digit_val y1 + 100 * digit_val y2 + 10 * digit_val y3 + digit_val y4)"
proof (cases s)
  case Nil
  then show ?thesis by (simp add: longYear_def)
next
  case (Cons y1 s1)
  show ?thesis
  proof (cases s1)
    case Nil
    with Cons show ?thesis by (simp add: longYear_def)
  next
    case (Cons y2 s2)
    note c2 = this
    show ?thesis
    proof (cases s2)
      case Nil
      with c2 \<open>s = y1 # s1\<close> show ?thesis by (simp add: longYear_def)
    next
      case (Cons y3 s3)
      note c3 = this
      show ?thesis
      proof (cases s3)
        case Nil
        with c2 c3 \<open>s = y1 # s1\<close> show ?thesis by (simp add: longYear_def)
      next
        case (Cons y4 s4)
        with c2 c3 \<open>s = y1 # s1\<close> show ?thesis
          by (auto simp: longYear_def)
      qed
    qed
  qed
qed

lemma skip_Some_iff: "skip s c = Some r \<longleftrightarrow> s = c # r"
  by (cases s) auto

lemma getnum_fixed_Some_iff:
  "getnum s True = Some (n, r) \<longleftrightarrow>
     (\<exists>a b. s = a # b # r \<and> is_digit a \<and> is_digit b \<and> n = digit_val a * 10 + digit_val b)"
  by (cases "(s, True)" rule: getnum.cases) auto

lemma digit_val_le_9: "is_digit c \<Longrightarrow> digit_val c \<le> 9"
  by (auto simp: is_digit_def digit_val_def)

lemma isLeap_iff: "isLeap y \<longleftrightarrow> (4 dvd y \<and> \<not> 100 dvd y) \<or> 400 dvd y"
  unfolding isLeap_def by presburger

lemma daysIn_eq: "daysIn m y = days_in_month y m" if "1 \<le> m" "m \<le> 12"
proof -
  from that have "m = 1 \<or> m = 2 \<or> m = 3 \<or> m = 4 \<or> m = 5 \<or> m = 6 \<or> m = 7 \<or> m = 8
      \<or> m = 9 \<or> m = 10 \<or> m = 11 \<or> m = 12"
    by arith
  then show ?thesis
    by (elim disjE) (simp_all add: daysIn_def days_in_month_def isLeap_iff)
qed

lemma parseDate_Some_iff:
  "parseDate s = Some (y, m, d) \<longleftrightarrow>
     (\<exists>y1 y2 y3 y4 m1 m2 d1 d2.
        s = [y1, y2, y3, y4, CHR ''-'', m1, m2, CHR ''-'', d1, d2] \<and>
        list_all is_digit [y1, y2, y3, y4, m1, m2, d1, d2] \<and>
        y = 1000 * digit_val y1 + 100 * digit_val y2 + 10 * digit_val y3 + digit_val y4 \<and>
        m = 10 * digit_val m1 + digit_val m2 \<and>
        d = 10 * digit_val d1 + digit_val d2 \<and>
        1 \<le> m \<and> m \<le> 12 \<and> 1 \<le> d \<and> d \<le> days_in_month y m)"
  (is "?L \<longleftrightarrow> ?R")
proof
  assume ?L
  then obtain s1 where 1: "longYear s = Some (y, s1)"
    by (auto simp: parseDate_def split: option.splits if_splits)
  from \<open>?L\<close> 1 obtain s2 where 2: "skip s1 (CHR ''-'') = Some s2"
    by (auto simp: parseDate_def split: option.splits if_splits)
  from \<open>?L\<close> 1 2 obtain s3 where 3: "getnum s2 True = Some (m, s3)" and m: "1 \<le> m" "m \<le> 12"
    by (auto simp: parseDate_def split: option.splits if_splits)
  from \<open>?L\<close> 1 2 3 m obtain s4 where 4: "skip s3 (CHR ''-'') = Some s4"
    by (auto simp: parseDate_def split: option.splits if_splits)
  from \<open>?L\<close> 1 2 3 4 m have 5: "getnum s4 True = Some (d, [])" and d: "1 \<le> d" "d \<le> daysIn m y"
    by (auto simp: parseDate_def split: option.splits if_splits)
  from 1 2 3 4 5 m d show ?R
    unfolding longYear_Some_iff skip_Some_iff getnum_fixed_Some_iff
    by (auto simp: daysIn_eq)
next
  assume ?R
  then obtain y1 y2 y3 y4 m1 m2 d1 d2 where
    s: "s = [y1, y2, y3, y4, CHR ''-'', m1, m2, CHR ''-'', d1, d2]"
    and dg: "list_all is_digit [y1, y2, y3, y4, m1, m2, d1, d2]"
    and y: "y = 1000 * digit_val y1 + 100 * digit_val y2 + 10 * digit_val y3 + digit_val y4"
    and m: "m = 10 * digit_val m1 + digit_val m2"
    and d: "d = 10 * digit_val d1 + digit_val d2"
    and r: "1 \<le> m" "m \<le> 12" "1 \<le> d" "d \<le> days_in_month y m"
    by blast
  have 1: "longYear s = Some (y, [CHR ''-'', m1, m2, CHR ''-'', d1, d2])"
    unfolding longYear_Some_iff using s dg y by simp
  have 3: "getnum [m1, m2, CHR ''-'', d1, d2] True = Some (m, [CHR ''-'', d1, d2])"
    unfolding getnum_fixed_Some_iff using dg m by simp
  have 5: "getnum [d1, d2] True = Some (d, [])"
    unfolding getnum_fixed_Some_iff using dg d by simp
  from r show ?L
    by (simp add: parseDate_def 1 3 5 daysIn_eq del: getnum.simps)
qed

section \<open>Rounding to the nearest double\<close>

lemma bitlen_bounds: "0 < n \<Longrightarrow> 2 ^ (bitlen n - 1) \<le> n \<and> n < 2 ^ bitlen n"
proof (induction n rule: bitlen.induct)
  case (1 n)
  show ?case
  proof (cases "n div 2 = 0")
    case True
    with \<open>0 < n\<close> have "n = 1" by presburger
    then show ?thesis by (simp add: bitlen.simps [of 1] bitlen.simps [of 0])
  next
    case False
    then have pos: "0 < n div 2" by simp
    with "1.IH" \<open>0 < n\<close> have IH: "2 ^ (bitlen (n div 2) - 1) \<le> n div 2" "n div 2 < 2 ^ bitlen (n div 2)"
      by auto
    have b: "bitlen n = Suc (bitlen (n div 2))"
      using \<open>0 < n\<close> by (subst bitlen.simps) simp
    have "0 < bitlen (n div 2)"
      using pos by (subst bitlen.simps) simp
    then have e: "(2::nat) ^ bitlen (n div 2) = 2 * 2 ^ (bitlen (n div 2) - 1)"
      by (cases "bitlen (n div 2)") auto
    have "(2::nat) ^ (bitlen n - 1) \<le> 2 * (n div 2)"
      using IH(1) by (simp add: b e)
    moreover have "n < 2 * (n div 2 + 1)" by presburger
    moreover have "2 * (n div 2 + 1) \<le> 2 ^ bitlen n"
      using IH(2) by (simp add: b)
    ultimately show ?thesis by linarith
  qed
qed

lemma bitlen_pos: "0 < n \<Longrightarrow> 0 < bitlen n"
  by (subst bitlen.simps) simp

lemma binade_less:
  assumes "0 < a" "0 < b" "a < b * 2 ^ E"
  shows "binade a b < int E"
proof -
  define la lb where "la = bitlen a" and "lb = bitlen b"
  have la: "2 ^ (la - 1) \<le> a" "0 < la"
    using bitlen_bounds [OF assms(1)] bitlen_pos [OF assms(1)] by (simp_all add: la_def)
  have lb: "b < 2 ^ lb"
    using bitlen_bounds [OF assms(2)] by (simp add: lb_def)
  have e: "binade a b = (if pow2_le (int la - int lb) a b then int la - int lb
                         else int la - int lb - 1)"
    by (simp add: binade_def la_def lb_def)
  show ?thesis
  proof (cases "pow2_le (int la - int lb) a b")
    case True
    have "int la - int lb < int E"
    proof (rule ccontr)
      assume "\<not> int la - int lb < int E"
      then have ge: "E \<le> nat (int la - int lb)" "0 \<le> int la - int lb" by auto
      with True have A: "b * 2 ^ nat (int la - int lb) \<le> a"
        by (simp add: pow2_le_def mult.commute)
      have "(2::nat) ^ E \<le> 2 ^ nat (int la - int lb)"
        using ge(1) by (simp add: power_increasing)
      then have "b * 2 ^ E \<le> b * 2 ^ nat (int la - int lb)" by (rule mult_le_mono2)
      with A assms(3) show False by linarith
    qed
    with True e show ?thesis by simp
  next
    case False
    have "int la - int lb \<le> int E"
    proof (rule ccontr)
      assume "\<not> int la - int lb \<le> int E"
      then have "lb + E \<le> la - 1" by linarith
      then have "(2::nat) ^ (lb + E) \<le> 2 ^ (la - 1)" by (rule power_increasing) simp
      moreover have "b * 2 ^ E < 2 ^ (lb + E)" using lb by (simp add: power_add)
      ultimately show False using la(1) assms(3) by linarith
    qed
    with False e show ?thesis by simp
  qed
qed

lemma binade_ge:
  assumes "0 < a" "0 < b" "b * 2 ^ F \<le> a"
  shows "int F \<le> binade a b"
proof -
  define la lb where "la = bitlen a" and "lb = bitlen b"
  have la: "a < 2 ^ la"
    using bitlen_bounds [OF assms(1)] by (simp add: la_def)
  have lb: "2 ^ (lb - 1) \<le> b" "0 < lb"
    using bitlen_bounds [OF assms(2)] bitlen_pos [OF assms(2)] by (simp_all add: lb_def)
  have e: "binade a b = (if pow2_le (int la - int lb) a b then int la - int lb
                         else int la - int lb - 1)"
    by (simp add: binade_def la_def lb_def)
  show ?thesis
  proof (cases "pow2_le (int la - int lb) a b")
    case True
    have "int F \<le> int la - int lb"
    proof (rule ccontr)
      assume "\<not> int F \<le> int la - int lb"
      then have "la \<le> (lb - 1) + F" using lb(2) by linarith
      then have "(2::nat) ^ la \<le> 2 ^ ((lb - 1) + F)" by (simp add: power_increasing)
      also have "\<dots> \<le> b * 2 ^ F" using lb(1) by (simp add: power_add)
      finally show False using la assms(3) by simp
    qed
    with True e show ?thesis by simp
  next
    case False
    have "int F < int la - int lb"
    proof (rule ccontr)
      assume n: "\<not> int F < int la - int lb"
      show False
      proof (cases "0 \<le> int la - int lb")
        case True
        with False have A: "a < b * 2 ^ nat (int la - int lb)"
          by (simp add: pow2_le_def mult.commute)
        have "(2::nat) ^ nat (int la - int lb) \<le> 2 ^ F"
          using n True by (simp add: power_increasing)
        then have "b * 2 ^ nat (int la - int lb) \<le> b * 2 ^ F" by (rule mult_le_mono2)
        with A assms(3) show False by linarith
      next
        case neg: False
        define j where "j = nat (- (int la - int lb))"
        from neg False have "a * 2 ^ j < b" by (simp add: pow2_le_def j_def)
        moreover have "a \<le> a * 2 ^ j" by simp
        moreover have "b \<le> b * 2 ^ F" by simp
        ultimately show False using assms(3) by linarith
      qed
    qed
    with False e show ?thesis by simp
  qed
qed

lemma rne_div_bounds:
  assumes "0 < b"
  shows "2 * (rne_div a b * b) \<le> 2 * a + b" and "2 * a \<le> 2 * (rne_div a b * b) + b"
proof -
  have a: "a = a div b * b + a mod b" by simp
  have r: "a mod b < b" using assms by simp
  define q r where "q = a div b" and "r = a mod b"
  have eq: "a = q * b + r" and lt: "r < b" using a r by (simp_all add: q_def r_def)
  have c: "rne_div a b = q \<and> 2 * r \<le> b \<or> rne_div a b = q + 1 \<and> b \<le> 2 * r"
    by (auto simp: rne_div_def Let_def q_def r_def)
  from c show "2 * (rne_div a b * b) \<le> 2 * a + b"
    using lt by (auto simp: eq algebra_simps)
  from c show "2 * a \<le> 2 * (rne_div a b * b) + b"
    using lt by (auto simp: eq algebra_simps)
qed

lemma rne_div_exact:
  assumes "2 * r < b"
  shows "rne_div (q * b + r) b = q"
proof -
  from assms have "r < b" by simp
  then have "(q * b + r) div b = q" "(q * b + r) mod b = r" by simp_all
  with assms show ?thesis by (simp add: rne_div_def Let_def)
qed

lemma round_nearest_below:
  assumes "0 < a" "0 < b" "a < b * 2 ^ E" "E \<le> 52"
  obtains k where "53 \<le> k + E" "round_nearest a b = Finite (int (rne_div (a * 2 ^ k) b)) k"
    "\<And>F. b * 2 ^ F \<le> a \<Longrightarrow> k + F \<le> 52"
proof -
  define e where "e = binade a b"
  define k where "k = nat (52 - max e (- 1022))"
  have lt: "e < int E" unfolding e_def by (rule binade_less [OF assms(1-3)])
  have u: "max e (- 1022) - 52 < 0" using lt assms(4) by simp
  have 1: "53 \<le> k + E" using lt assms(4) by (simp add: k_def)
  have m: "\<not> 52 \<le> max e (- 1022)" using u by simp
  have n: "nat (52 - max e (- 1022)) = k" by (simp add: k_def)
  have 2: "round_nearest a b = Finite (int (rne_div (a * 2 ^ k) b)) k"
    using assms(1) m n
    by (simp add: round_nearest_def Let_def e_def [symmetric])
  have 3: "k + F \<le> 52" if "b * 2 ^ F \<le> a" for F
  proof -
    have "int F \<le> e" unfolding e_def by (rule binade_ge [OF assms(1,2) that])
    with lt assms(4) show ?thesis by (simp add: k_def)
  qed
  from 1 2 3 show ?thesis by (rule that)
qed

lemma priceRegExp_shape:
  assumes "priceRegExp s"
  shows "plain_decimal s" and "length (tl (dropWhile is_digit s)) = 2"
proof -
  from assms obtain p a b where d: "dropWhile is_digit s = [p, a, b]"
    and f: "byte p = 46" "is_digit a" "is_digit b" "takeWhile is_digit s \<noteq> []"
    by (auto simp: priceRegExp_def split: list.splits)
  from f show "plain_decimal s" by (simp add: plain_decimal_def d)
  show "length (tl (dropWhile is_digit s)) = 2" by (simp add: d)
qed

lemma ParseFloat_price: "priceRegExp s \<Longrightarrow> ParseFloat pl s = round_nearest (cents s) 100"
  using priceRegExp_shape [of s] by (simp add: ParseFloat_def cents_def)

lemma totalPoints_Finite:
  assumes "0 \<le> n"
  shows "totalPoints (Finite n k) p =
     p + (if 2 ^ k dvd n then 50 else 0) + (if 2 ^ k dvd 4 * n then 25 else 0)"
proof -
  have 1: "feq (Mod (Finite n k) (Finite 1 0)) (Finite 0 0) \<longleftrightarrow> 2 ^ k dvd n"
  proof (cases "n = 0")
    case True
    then show ?thesis by (simp add: Mod_Finite feq_Finite)
  next
    case False
    with assms have "sgn n = 1" by simp
    with assms show ?thesis by (simp add: Mod_Finite feq_Finite mod_eq_0_iff_dvd)
  qed
  have 2: "feq (Mod (Finite n k) (Finite 1 2)) (Finite 0 0) \<longleftrightarrow> 2 ^ k dvd 4 * n"
  proof (cases "n = 0")
    case True
    then show ?thesis by (simp add: Mod_Finite feq_Finite)
  next
    case False
    with assms have "sgn n = 1" by simp
    with assms show ?thesis
      by (simp add: Mod_Finite feq_Finite mod_eq_0_iff_dvd mult.commute)
  qed
  show ?thesis by (simp add: totalPoints_def Let_def 1 2)
qed

lemma cents_tests:
  fixes c k :: nat
  assumes k: "6 \<le> k"
  defines "m \<equiv> rne_div (c * 2 ^ k) 100"
  shows "2 ^ k dvd m \<longleftrightarrow> 100 dvd c" and "2 ^ k dvd 4 * m \<longleftrightarrow> 25 dvd c"
proof -
  define P :: nat where "P = 2 ^ k"
  have "(2::nat) ^ 6 \<le> 2 ^ k" using k by (rule power_increasing) simp
  then have P: "64 \<le> P" by (simp add: P_def)
  have up: "2 * (m * 100) \<le> 2 * (c * P) + 100"
    and lo: "2 * (c * P) \<le> 2 * (m * 100) + 100"
    using rne_div_bounds [of 100 "c * P"] by (simp_all add: m_def P_def)
  have close: "c = n" if "2 * (m * 100) = 2 * (n * P)" for n
  proof (rule ccontr)
    assume "c \<noteq> n"
    then consider "c + 1 \<le> n" | "n + 1 \<le> c" by linarith
    then show False
    proof cases
      case 1
      then have "(c + 1) * P \<le> n * P" by (rule mult_le_mono1)
      with up that P show False by (simp add: algebra_simps)
    next
      case 2
      then have "(n + 1) * P \<le> c * P" by (rule mult_le_mono1)
      with lo that P show False by (simp add: algebra_simps)
    qed
  qed
  show "2 ^ k dvd m \<longleftrightarrow> 100 dvd c"
  proof
    assume "2 ^ k dvd m"
    then obtain j where j: "m = P * j" by (auto simp: P_def)
    have "c = 100 * j" by (rule close) (simp add: j)
    then show "100 dvd c" by simp
  next
    assume "100 dvd c"
    then obtain j where "c = 100 * j" by auto
    then have "m = rne_div ((j * P) * 100 + 0) 100" by (simp add: m_def P_def algebra_simps)
    also have "\<dots> = j * P" by (rule rne_div_exact) simp
    finally show "2 ^ k dvd m" by (simp add: P_def)
  qed
  show "2 ^ k dvd 4 * m \<longleftrightarrow> 25 dvd c"
  proof
    assume "2 ^ k dvd 4 * m"
    then obtain j where j: "4 * m = P * j" by (auto simp: P_def)
    have "2 * (m * 100) = 50 * (4 * m)" by simp
    also have "\<dots> = 2 * ((25 * j) * P)" by (simp add: j)
    finally have "c = 25 * j" by (rule close)
    then show "25 dvd c" by simp
  next
    assume "25 dvd c"
    then obtain j where c: "c = 25 * j" by auto
    define k' where "k' = k - 2"
    have k': "k = k' + 2" using k by (simp add: k'_def)
    have "m = rne_div ((j * 2 ^ k') * 100 + 0) 100" by (simp add: m_def c k' algebra_simps)
    also have "\<dots> = j * 2 ^ k'" by (rule rne_div_exact) simp
    finally show "2 ^ k dvd 4 * m" by (simp add: k')
  qed
qed

section \<open>The claims\<close>

text \<open>
  C1 says that a receipt whose total does not match the decimal pattern is rejected
  and not stored. The submit handler checks that the total is present and nothing
  else about it: the receipt below, valid in every other field and with the total
  \<^verbatim>\<open>abc\<close>, is accepted, given an identifier and stored.
\<close>

theorem total_not_checked:
  "processReceipt someIds POST
     (Decoded (receipt ''Target'' ''2022-01-01'' ''13:01'' [item ''Pepsi'' ''1.25''] ''abc''))
     emptyState
   = Some (ReceiptIDResponse (someIds 0), None,
       \<lparr>receipts = [someIds 0 \<mapsto>
           receipt ''Target'' ''2022-01-01'' ''13:01'' [item ''Pepsi'' ''1.25''] ''abc''],
        draws = 1\<rparr>)"
  by (simp add: handlers chars checks)

text \<open>
  C4, as amended: the validator runs its checks in the fixed order of the source and
  reports the first that fails, for every submitted receipt. The order is: the body
  decodes and the five fields are present, the retailer's pattern, the purchase date,
  the purchase time, at least one item, then the items one after the other, of each
  the presence of its two fields, its description and its price. In particular, for a
  receipt with all five fields present and no item, the reported failure is the first
  that applies of: invalid retailer, invalid date, invalid time, no items.
\<close>

theorem checks_in_source_order:
  "validate b = first_failure b \<and>
   (Retailer rs = Some rt \<and> PurchaseDate rs = Some dt \<and> PurchaseTime rs = Some tm \<and>
    Items rs = Some [] \<and> Total rs = Some tot \<longrightarrow>
    validate (Decoded rs) =
      Some (if \<not> matchRetailer rt then InvalidRetailer
            else if parseDate dt = None then InvalidPurchaseDate
            else if parseTime tm = None then InvalidPurchaseTime
            else NoItems))"
proof
  show "validate b = first_failure b"
  proof (cases b)
    case DecodeError
    then show ?thesis by (simp add: validate_def first_failure_def)
  next
    case (Decoded r)
    then show ?thesis
      by (auto simp: validate_def first_failure_def receipt_checks_def present_and_def
          first_item_failing_eq split: option.splits)
  qed
  show "Retailer rs = Some rt \<and> PurchaseDate rs = Some dt \<and> PurchaseTime rs = Some tm \<and>
    Items rs = Some [] \<and> Total rs = Some tot \<longrightarrow>
    validate (Decoded rs) =
      Some (if \<not> matchRetailer rt then InvalidRetailer
            else if parseDate dt = None then InvalidPurchaseDate
            else if parseTime tm = None then InvalidPurchaseTime
            else NoItems)"
    by (simp add: validate_def)
qed

theorem checks_in_source_order_witness:
  "validate (Decoded (receipt ''Target'' ''2023-02-30'' ''25:00'' [] ''1.00''))
     = first_failure (Decoded (receipt ''Target'' ''2023-02-30'' ''25:00'' [] ''1.00'')) \<and>
   validate (Decoded (receipt ''Target'' ''2023-02-30'' ''25:00'' [] ''1.00''))
     = Some InvalidPurchaseDate \<and>
   validate (Decoded (receipt ''!!'' ''2022-01-01'' ''13:01'' [item ''Pepsi'' ''1''] ''1.00''))
     = first_failure (Decoded (receipt ''!!'' ''2022-01-01'' ''13:01'' [item ''Pepsi'' ''1''] ''1.00'')) \<and>
   first_failure (Decoded (receipt ''!!'' ''2022-01-01'' ''13:01'' [item ''Pepsi'' ''1''] ''1.00''))
     = Some InvalidRetailer \<and>
   first_failure (Decoded (receipt ''Target'' ''2022-01-01'' ''13:01''
        [item ''Pepsi'' ''1.25'', item ''Cola'' ''1''] ''1.00'')) = Some InvalidPrice"
proof -
  have 1: "Retailer (receipt ''Target'' ''2023-02-30'' ''25:00'' [] ''1.00'') = Some ''Target'' \<and>
      PurchaseDate (receipt ''Target'' ''2023-02-30'' ''25:00'' [] ''1.00'') = Some ''2023-02-30'' \<and>
      PurchaseTime (receipt ''Target'' ''2023-02-30'' ''25:00'' [] ''1.00'') = Some ''25:00'' \<and>
      Items (receipt ''Target'' ''2023-02-30'' ''25:00'' [] ''1.00'') = Some [] \<and>
      Total (receipt ''Target'' ''2023-02-30'' ''25:00'' [] ''1.00'') = Some ''1.00''"
    by (simp add: receipt_def)
  have 2: "matchRetailer ''Target''" "parseDate ''2023-02-30'' = None"
    by (simp_all add: chars checks)
  have a: "validate (Decoded (receipt ''Target'' ''2023-02-30'' ''25:00'' [] ''1.00''))
     = first_failure (Decoded (receipt ''Target'' ''2023-02-30'' ''25:00'' [] ''1.00''))"
    using checks_in_source_order [of "Decoded (receipt ''Target'' ''2023-02-30'' ''25:00'' [] ''1.00'')"]
    by simp
  have b: "validate (Decoded (receipt ''Target'' ''2023-02-30'' ''25:00'' [] ''1.00''))
     = Some InvalidPurchaseDate"
    using checks_in_source_order
      [of b "receipt ''Target'' ''2023-02-30'' ''25:00'' [] ''1.00''"
        "''Target''" "''2023-02-30''" "''25:00''" "''1.00''"] 1 2
    by simp
  have c: "validate (Decoded (receipt ''!!'' ''2022-01-01'' ''13:01'' [item ''Pepsi'' ''1''] ''1.00''))
     = first_failure (Decoded (receipt ''!!'' ''2022-01-01'' ''13:01'' [item ''Pepsi'' ''1''] ''1.00''))"
    using checks_in_source_order
      [of "Decoded (receipt ''!!'' ''2022-01-01'' ''13:01'' [item ''Pepsi'' ''1''] ''1.00'')"]
    by simp
  have d: "first_failure (Decoded (receipt ''!!'' ''2022-01-01'' ''13:01'' [item ''Pepsi'' ''1''] ''1.00''))
     = Some InvalidRetailer"
    by (simp add: first_failure_def receipt_checks_def item_checks_def present_and_def chars checks)
  have e: "first_failure (Decoded (receipt ''Target'' ''2022-01-01'' ''13:01''
        [item ''Pepsi'' ''1.25'', item ''Cola'' ''1''] ''1.00'')) = Some InvalidPrice"
    by (simp add: first_failure_def receipt_checks_def item_checks_def present_and_def chars checks)
  from a b c d e show ?thesis by simp
qed

text \<open>
  C4 as stated fails: with an invalid retailer and no items, the reported failure is
  the retailer's, not the empty list of items.
\<close>

theorem empty_items_not_first:
  "validate (Decoded (receipt ''!!!'' ''2022-01-01'' ''13:01'' [] ''1.00''))
     = Some InvalidRetailer"
  by (simp add: chars checks)

text \<open>
  C5: the score of the receipt of scenario A is 28 and the score of the receipt of
  scenario B is 109, on every platform.
\<close>

theorem scenarios_28_and_109:
  "score pl scenarioA = Inr 28 \<and> score pl scenarioB = Inr 109"
  by (simp add: scenarioA_def scenarioB_def chars floats scoring)

text \<open>
  C8: on a store of validated receipts, the points handler answers with the points
  exactly when the identifier is not empty, has no whitespace (the class
  \<^verbatim>\<open>\s\<close> of the pattern) and is a key of the store; in every other case it
  answers with the one not-found response. The state is unchanged either way.
\<close>

theorem points_found_iff:
  assumes "validated s"
  shows "if ident \<noteq> [] \<and> list_all (\<lambda>c. \<not> space_char c) ident \<and> receipts s ident \<noteq> None
         then \<exists>r p. receipts s ident = Some r \<and> score pl r = Inr p \<and>
                getReceiptPoints pl GET ident s = Inr (PointsResponse p, None, s)
         else \<exists>d. getReceiptPoints pl GET ident s = Inr (NotFound, Some d, s)"
proof (cases "ident \<noteq> [] \<and> list_all (\<lambda>c. \<not> space_char c) ident \<and> receipts s ident \<noteq> None")
  case True
  then obtain r where r: "receipts s ident = Some r" by auto
  with assms have "validate (Decoded r) = None" by (simp add: validated_def)
  then obtain p where "score pl r = Inr p" using score_ok by blast
  with True r show ?thesis
    by (simp add: getReceiptPoints_def matchId_def wasReceiptProcessed_def andThen_def deref_def)
next
  case False
  then show ?thesis
    by (auto simp: getReceiptPoints_def matchId_def wasReceiptProcessed_def)
qed

theorem points_found_iff_witness:
  "validated \<lparr>receipts = [someIds 0 \<mapsto> scenarioB], draws = 1\<rparr> \<and>
   getReceiptPoints somePlatform GET (someIds 0)
       \<lparr>receipts = [someIds 0 \<mapsto> scenarioB], draws = 1\<rparr>
     = Inr (PointsResponse 109, None, \<lparr>receipts = [someIds 0 \<mapsto> scenarioB], draws = 1\<rparr>) \<and>
   getReceiptPoints somePlatform GET ''no such id''
       \<lparr>receipts = [someIds 0 \<mapsto> scenarioB], draws = 1\<rparr>
     = Inr (NotFound, Some InvalidReceiptId, \<lparr>receipts = [someIds 0 \<mapsto> scenarioB], draws = 1\<rparr>)"
proof -
  let ?s = "\<lparr>receipts = [someIds 0 \<mapsto> scenarioB], draws = 1\<rparr>"
  have v: "validated ?s"
    by (auto simp: validated_def scenarioB_def chars checks split: if_splits)
  have b: "score somePlatform scenarioB = Inr 109"
    by (simp add: scenarioB_def chars floats scoring)
  have found: "getReceiptPoints somePlatform GET (someIds 0) ?s = Inr (PointsResponse 109, None, ?s)"
    using points_found_iff [OF v, of "someIds 0" somePlatform] b
    by (simp add: someIds_def chars)
  have missing: "getReceiptPoints somePlatform GET ''no such id'' ?s
      = Inr (NotFound, Some InvalidReceiptId, ?s)"
    by (simp add: handlers chars)
  show ?thesis using v found missing by simp
qed

text \<open>
  C10: an item whose description is three spaces passes the validator; the receipt
  is given an identifier and stored.
\<close>

theorem whitespace_description_accepted:
  "processReceipt someIds POST
     (Decoded (receipt ''Target'' ''2022-01-01'' ''13:01'' [item ''   '' ''1.25''] ''1.25''))
     emptyState
   = Some (ReceiptIDResponse (someIds 0), None,
       \<lparr>receipts = [someIds 0 \<mapsto>
           receipt ''Target'' ''2022-01-01'' ''13:01'' [item ''   '' ''1.25''] ''1.25''],
        draws = 1\<rparr>)"
  by (simp add: handlers chars checks)

text \<open>
  Below \<open>2 ^ 47\<close> dollars the defect of C2 does not show: for a total that matches
  the decimal pattern and is below that bound, the 50 points are awarded exactly when
  the cents are a multiple of 100, and the 25 points exactly when they are a multiple
  of 25.
\<close>

theorem total_rules_agree_with_cents:
  assumes "priceRegExp tot" and "cents tot < 100 * 2 ^ 47"
  shows "totalPoints (ParseFloat pl tot) p =
     p + (if cents tot mod 100 = 0 then 50 else 0) + (if cents tot mod 25 = 0 then 25 else 0)"
proof (cases "cents tot = 0")
  case True
  then have "ParseFloat pl tot = Finite 0 0"
    using assms(1) by (simp add: ParseFloat_price round_nearest_def)
  with True show ?thesis by (simp add: totalPoints_Finite)
next
  case False
  then have pos: "0 < cents tot" by simp
  obtain k where k: "53 \<le> k + 47"
    and r: "round_nearest (cents tot) 100 = Finite (int (rne_div (cents tot * 2 ^ k) 100)) k"
    using round_nearest_below [OF pos _ assms(2)] by auto
  from k have k6: "6 \<le> k" by simp
  have "int (2 ^ k) dvd int (rne_div (cents tot * 2 ^ k) 100) \<longleftrightarrow> 100 dvd cents tot"
    unfolding int_dvd_int_iff using cents_tests(1) [OF k6] .
  moreover have "int (2 ^ k) dvd int (4 * rne_div (cents tot * 2 ^ k) 100) \<longleftrightarrow> 25 dvd cents tot"
    unfolding int_dvd_int_iff using cents_tests(2) [OF k6] .
  ultimately show ?thesis
    using assms(1) by (simp add: ParseFloat_price r totalPoints_Finite mod_eq_0_iff_dvd)
qed

theorem total_rules_agree_with_cents_witness:
  "priceRegExp ''9.00'' \<and> cents ''9.00'' < 100 * 2 ^ 47 \<and> cents ''9.00'' mod 100 = 0 \<and>
   totalPoints (ParseFloat somePlatform ''9.00'') 0 = 75 \<and>
   priceRegExp ''35.35'' \<and> cents ''35.35'' mod 25 = 10 \<and>
   totalPoints (ParseFloat somePlatform ''35.35'') 0 = 0"
proof -
  have a: "priceRegExp ''9.00''" "cents ''9.00'' < 100 * 2 ^ 47" "cents ''9.00'' = 900"
    by (simp_all add: priceRegExp_def cents_def chars)
  have b: "priceRegExp ''35.35''" "cents ''35.35'' < 100 * 2 ^ 47" "cents ''35.35'' = 3535"
    by (simp_all add: priceRegExp_def cents_def chars)
  show ?thesis
    using total_rules_agree_with_cents [OF a(1,2), of somePlatform 0]
      total_rules_agree_with_cents [OF b(1,2), of somePlatform 0] a b
    by simp
qed

text \<open>
  C2 says that the 50 points are awarded exactly when the cents of the total are a
  multiple of 100, and the 25 points exactly when they are a multiple of 25. The
  program makes the two tests with \<^verbatim>\<open>math.Mod\<close> on the \<^verbatim>\<open>float64\<close> nearest to the
  total. The double nearest to 140737488355328.01 is the whole number
  140737488355328, so both tests succeed and 75 points are awarded, although the
  cents are a multiple neither of 100 nor of 25, and against the comments of the
  source (50 points if the total is a round dollar amount with no cents, 25 points
  if the total is a multiple of 0.25).
\<close>

theorem total_rules_float_artifact:
  "priceRegExp ''140737488355328.01'' \<and> cents ''140737488355328.01'' mod 100 = 1 \<and>
   cents ''140737488355328.01'' mod 25 = 1 \<and>
   totalPoints (ParseFloat somePlatform ''140737488355328.01'') 0 = 75"
  by (simp add: priceRegExp_def cents_def chars floats totalPoints_def)

text \<open>
  C6: the date check of the validator (the call of \<^verbatim>\<open>time.Parse\<close> with the layout
  \<^verbatim>\<open>2006-01-02\<close> returns no error) passes exactly when the string is a real
  calendar date in the shape \<^verbatim>\<open>YYYY-MM-DD\<close>. The string \<^verbatim>\<open>2023-02-30\<close> is no
  calendar date, so it is rejected.
\<close>

theorem date_check_is_calendar_date:
  "parseDate s \<noteq> None \<longleftrightarrow> calendar_date s"
proof
  assume "parseDate s \<noteq> None"
  then obtain y m d where "parseDate s = Some (y, m, d)" by auto
  then show "calendar_date s"
    unfolding parseDate_Some_iff by (auto simp: calendar_date_def Let_def)
next
  assume c: "calendar_date s"
  then obtain y1 y2 y3 y4 m1 m2 d1 d2 where
    s: "s = [y1, y2, y3, y4, CHR ''-'', m1, m2, CHR ''-'', d1, d2]"
    by (auto simp: calendar_date_def split: list.splits)
  with c have "parseDate s =
    Some (1000 * digit_val y1 + 100 * digit_val y2 + 10 * digit_val y3 + digit_val y4,
          10 * digit_val m1 + digit_val m2, 10 * digit_val d1 + digit_val d2)"
    unfolding parseDate_Some_iff by (simp add: calendar_date_def Let_def)
  then show "parseDate s \<noteq> None" by simp
qed

text \<open>
  C7 says that every receipt that fails a validation rule gets the client error and
  leaves the store as it was. The submit handler makes no check of the total beyond
  its presence, and its time check reads a one-digit hour: the receipt whose total
  \<^verbatim>\<open>5.1\<close> lacks a fractional digit, and the receipt whose purchase time is
  \<^verbatim>\<open>9:30\<close>, are both accepted, given an identifier and stored.
\<close>

theorem ill_formed_total_or_time_stored:
  "processReceipt someIds POST
     (Decoded (receipt ''Target'' ''2022-01-01'' ''13:01'' [item ''Pepsi'' ''1.25''] ''5.1''))
     emptyState
   = Some (ReceiptIDResponse (someIds 0), None,
       \<lparr>receipts = [someIds 0 \<mapsto>
           receipt ''Target'' ''2022-01-01'' ''13:01'' [item ''Pepsi'' ''1.25''] ''5.1''],
        draws = 1\<rparr>) \<and>
   processReceipt someIds POST
     (Decoded (receipt ''Target'' ''2022-01-01'' ''9:30'' [item ''Pepsi'' ''1.25''] ''1.25''))
     emptyState
   = Some (ReceiptIDResponse (someIds 0), None,
       \<lparr>receipts = [someIds 0 \<mapsto>
           receipt ''Target'' ''2022-01-01'' ''9:30'' [item ''Pepsi'' ''1.25''] ''1.25''],
        draws = 1\<rparr>)"
  by (simp add: handlers chars checks)

text \<open>
  C9 says that the score of a valid stored receipt is never negative. The points are
  summed in \<^verbatim>\<open>int64\<close>, which wraps around: the receipt below passes every check
  of the submit handler, each of its two items earns \<open>2 ^ 62\<close> points, and the score
  the points handler returns is negative.
\<close>

theorem score_wraps_negative:
  "validate (Decoded overflowing) = None \<and>
   score somePlatform overflowing = Inr (- 9223372036854775797) \<and>
   sint (- 9223372036854775797 :: 64 word) = - 9223372036854775797 \<and>
   getReceiptPoints somePlatform GET (someIds 0)
       \<lparr>receipts = [someIds 0 \<mapsto> overflowing], draws = 1\<rparr>
     = Inr (PointsResponse (- 9223372036854775797), None,
            \<lparr>receipts = [someIds 0 \<mapsto> overflowing], draws = 1\<rparr>)"
proof -
  have v: "validate (Decoded overflowing) = None"
    by (simp add: overflowing_def chars checks)
  have s: "score somePlatform overflowing = Inr (- 9223372036854775797)"
    by (simp add: overflowing_def chars floats scoring)
  have i: "sint (- 9223372036854775797 :: 64 word) = - 9223372036854775797"
    by simp
  have g: "getReceiptPoints somePlatform GET (someIds 0)
       \<lparr>receipts = [someIds 0 \<mapsto> overflowing], draws = 1\<rparr>
     = Inr (PointsResponse (- 9223372036854775797), None,
            \<lparr>receipts = [someIds 0 \<mapsto> overflowing], draws = 1\<rparr>)"
    by (simp add: handlers chars s andThen_def deref_def)
  from v s i g show ?thesis by simp
qed

end
